theory Spec2Isabelle
  imports Main
begin

section \<open>JavaScript values\<close>

text \<open>
  The values that can reach \<open>resolveText\<close>: the resolver only distinguishes non-empty
  strings from everything else (\<open>!text || typeof text !== 'string'\<close>).
\<close>

datatype jsval = JUndefined | JNull | JBool bool | JNum int | JStr string | JObj nat

section \<open>The placeholder regular expression\<close>

text \<open>
  \<open>/<([^:]+):([^#]+)#([^|>]+)(?:\|([^>]+))?>/\<close> is embedded piece by piece as a
  backtracking matcher in continuation-passing style, the way the JavaScript engine runs
  it: a greedy quantifier first takes one more character and only hands over to the rest
  of the pattern when the longer attempt has failed.
  A continuation receives the text captured so far and the remaining input.
\<close>

fun class_star :: "(char \<Rightarrow> bool) \<Rightarrow> (string \<Rightarrow> string \<Rightarrow> 'a option) \<Rightarrow> string \<Rightarrow> string \<Rightarrow> 'a option" where
  "class_star P k acc [] = k acc []"
| "class_star P k acc (c # cs) =
     (if P c then
        (case class_star P k (acc @ [c]) cs of
           Some r \<Rightarrow> Some r
         | None \<Rightarrow> k acc (c # cs))
      else k acc (c # cs))"

definition class_plus :: "(char \<Rightarrow> bool) \<Rightarrow> (string \<Rightarrow> string \<Rightarrow> 'a option) \<Rightarrow> string \<Rightarrow> 'a option" where
  "class_plus P k s = (case s of [] \<Rightarrow> None | c # cs \<Rightarrow> if P c then class_star P k [c] cs else None)"

definition lit :: "char \<Rightarrow> (string \<Rightarrow> 'a option) \<Rightarrow> string \<Rightarrow> 'a option" where
  "lit c k s = (case s of [] \<Rightarrow> None | x # xs \<Rightarrow> if x = c then k xs else None)"

record placeholder =
  name :: string
  source :: string
  key :: string
  defaultValue :: "string option"

text \<open>One attempt of the regular expression at the start of the input: the four groups
  and the input left after the closing \<open>>\<close>.\<close>

definition placeholder_here :: "string \<Rightarrow> (placeholder \<times> string) option" where
  "placeholder_here s =
     lit CHR ''<'' (class_plus (\<lambda>c. c \<noteq> CHR '':'') (\<lambda>n. lit CHR '':''
       (class_plus (\<lambda>c. c \<noteq> CHR ''#'') (\<lambda>src. lit CHR ''#''
         (class_plus (\<lambda>c. c \<noteq> CHR ''|'' \<and> c \<noteq> CHR ''>'') (\<lambda>k r.
            (case lit CHR ''|'' (class_plus (\<lambda>c. c \<noteq> CHR ''>'') (\<lambda>d. lit CHR ''>''
                    (\<lambda>r'. Some (\<lparr>name = n, source = src, key = k, defaultValue = Some d\<rparr>, r')))) r of
               Some x \<Rightarrow> Some x
             | None \<Rightarrow> lit CHR ''>''
                    (\<lambda>r'. Some (\<lparr>name = n, source = src, key = k, defaultValue = None\<rparr>, r')) r))))))) s"

text \<open>\<open>String.prototype.match\<close> with the non-global expression: the leftmost position at
  which an attempt succeeds, with the text it consumed.\<close>

fun regex_match :: "string \<Rightarrow> (string \<times> placeholder) option" where
  "regex_match [] = None"
| "regex_match (c # cs) =
     (case placeholder_here (c # cs) of
        Some (p, rest) \<Rightarrow> Some (take (length (c # cs) - length rest) (c # cs), p)
      | None \<Rightarrow> regex_match cs)"

text \<open>\<open>String.prototype.matchAll\<close> with the global expression: after a match the scan
  resumes at the end of the matched text (\<open>lastIndex\<close>), so matches do not overlap. The
  first argument counts the characters still covered by the previous match.\<close>

fun matchAll_from :: "nat \<Rightarrow> string \<Rightarrow> (string \<times> placeholder) list" where
  "matchAll_from skip [] = []"
| "matchAll_from (Suc n) (c # cs) = matchAll_from n cs"
| "matchAll_from 0 (c # cs) =
     (case placeholder_here (c # cs) of
        Some (p, rest) \<Rightarrow>
          (take (length (c # cs) - length rest) (c # cs), p)
            # matchAll_from (length (c # cs) - length rest - 1) cs
      | None \<Rightarrow> matchAll_from 0 cs)"

definition matchAll :: "string \<Rightarrow> (string \<times> placeholder) list" where
  "matchAll text = matchAll_from 0 text"

section \<open>Parsing and creating one placeholder\<close>

definition parsePlaceholder :: "string \<Rightarrow> string + placeholder" where
  "parsePlaceholder placeholderText =
     (case regex_match placeholderText of
        None \<Rightarrow> Inl (''Invalid placeholder syntax: '' @ placeholderText)
      | Some (fullMatch, p) \<Rightarrow> Inr p)"

text \<open>The default parameter value \<open>null\<close> (also taken for \<open>undefined\<close>) is \<open>None\<close>.\<close>

definition createPlaceholder :: "string \<Rightarrow> string \<Rightarrow> string \<Rightarrow> string option \<Rightarrow> string" where
  "createPlaceholder n src k d =
     (let placeholder = ''<'' @ n @ '':'' @ src @ ''#'' @ k;
          placeholder = (case d of None \<Rightarrow> placeholder | Some dv \<Rightarrow> placeholder @ ''|'' @ dv)
      in placeholder @ ''>'')"

section \<open>Sources\<close>

text \<open>
  What a call \<open>await source.resolve(key)\<close> can do: throw an error with a message, or
  return a string or \<open>null\<close>/\<open>undefined\<close> (\<open>None\<close>). A source instance carries its
  class name (\<open>source.constructor.name\<close>, used in the warning) and its \<open>resolve\<close>.
\<close>

datatype outcome = Throws string | Returns "string option"

record source_instance =
  className :: string
  resolve :: "string \<Rightarrow> outcome"

definition sq :: string where
  "sq = [CHR 0x27]"

text \<open>\<open>EnvSource.resolve\<close>. The case transformation (\<open>toUpperCase\<close>, \<open>toLowerCase\<close> or
  none) is a parameter; an empty prefix is falsy and leaves the key as it is, which is
  what prepending it does. The environment is a table of its variables: a key such as
  \<open>toString\<close>, which \<open>process.env[envKey]\<close> finds on the prototype of the object when
  no variable of that name is set, is outside this model.\<close>

definition EnvSource_resolve :: "string \<Rightarrow> (string \<Rightarrow> string) \<Rightarrow> (string \<rightharpoonup> string) \<Rightarrow> string \<Rightarrow> outcome" where
  "EnvSource_resolve prefix transformCase env k =
     (let envKey = transformCase (if prefix \<noteq> [] then prefix @ k else k) in
      case env envKey of
        None \<Rightarrow> Throws (''EnvSource failed to resolve key '' @ sq @ k @ sq @ '': ''
                        @ ''Environment variable '' @ sq @ envKey @ sq @ '' not found'')
      | Some v \<Rightarrow> Returns (Some v))"

definition EnvSource :: "(string \<rightharpoonup> string) \<Rightarrow> source_instance" where
  "EnvSource env = \<lparr>className = ''EnvSource'', resolve = EnvSource_resolve [] (\<lambda>s. s) env\<rparr>"

section \<open>The resolver\<close>

record cache_entry =
  cached_value :: string
  timestamp :: int

text \<open>
  The fields of \<open>ParamResolver\<close> that resolution reads and writes. \<open>now\<close> is the reading
  of \<open>Date.now()\<close>, in milliseconds; the environment sets it between calls, and one
  call reads the same value throughout. \<open>calls\<close> is a ghost field: every call of a source's
  \<open>resolve\<close> appends the class name of the source and the key, so that the theorems can
  say which backends were called. \<open>console\<close> collects the lines written with
  \<open>console.log\<close>, \<open>console.warn\<close> and \<open>console.error\<close>.
\<close>

record resolver =
  sources :: "string \<rightharpoonup> source_instance"
  cache :: "string \<rightharpoonup> cache_entry"
  cacheTimeout :: int
  now :: int
  calls :: "(string \<times> string) list"
  console :: "string list"

definition sourcePrecedence :: "string list" where
  "sourcePrecedence = [''env'', ''file'', ''vault'', ''aws'', ''k8s'', ''http'']"

fun otherSources :: "resolver \<Rightarrow> string \<Rightarrow> string list \<Rightarrow> source_instance list" where
  "otherSources st preferredSourceType [] = []"
| "otherSources st preferredSourceType (sourceType # rest) =
     (case sources st sourceType of
        Some s \<Rightarrow>
          (if sourceType \<noteq> preferredSourceType
           then s # otherSources st preferredSourceType rest
           else otherSources st preferredSourceType rest)
      | None \<Rightarrow> otherSources st preferredSourceType rest)"

definition getOrderedSources :: "resolver \<Rightarrow> string \<Rightarrow> source_instance list" where
  "getOrderedSources st preferredSourceType =
     (case sources st preferredSourceType of Some s \<Rightarrow> [s] | None \<Rightarrow> [])
       @ otherSources st preferredSourceType sourcePrecedence"

definition getCachedValue :: "resolver \<Rightarrow> string \<Rightarrow> resolver \<times> string option" where
  "getCachedValue st k =
     (case cache st k of
        None \<Rightarrow> (st, None)
      | Some cached \<Rightarrow>
          if now st - timestamp cached > cacheTimeout st
          then (st\<lparr>cache := (cache st)(k := None)\<rparr>, None)
          else (st, Some (cached_value cached)))"

definition setCachedValue :: "resolver \<Rightarrow> string \<Rightarrow> string \<Rightarrow> resolver" where
  "setCachedValue st k v =
     st\<lparr>cache := (cache st)(k \<mapsto> \<lparr>cached_value = v, timestamp = now st\<rparr>)\<rparr>"

text \<open>The loop of \<open>resolvePlaceholder\<close> over the ordered sources. It returns the state,
  the value when a source produced one, and \<open>lastError\<close> (its message). A console line
  is the arguments of the call joined by a space; this is the line written as long as
  the first argument has no \<open>%\<close> directive, which \<open>console.warn\<close> and \<open>console.error\<close>
  would expand.\<close>

fun trySources :: "resolver \<Rightarrow> string \<Rightarrow> string \<Rightarrow> source_instance list \<Rightarrow> string option
    \<Rightarrow> resolver \<times> string option \<times> string option" where
  "trySources st cacheKey k [] lastError = (st, None, lastError)"
| "trySources st cacheKey k (src # rest) lastError =
     (let st1 = st\<lparr>calls := calls st @ [(className src, k)]\<rparr> in
      case resolve src k of
        Returns (Some resolvedValue) \<Rightarrow>
          (setCachedValue st1 cacheKey resolvedValue, Some resolvedValue, lastError)
      | Returns None \<Rightarrow> trySources st1 cacheKey k rest lastError
      | Throws msg \<Rightarrow>
          trySources
            (st1\<lparr>console := console st1
                @ [''Source '' @ className src @ '' failed for key '' @ k @ '': '' @ msg]\<rparr>)
            cacheKey k rest (Some msg))"

definition unresolvedMessage :: "string \<Rightarrow> string \<Rightarrow> string option \<Rightarrow> string" where
  "unresolvedMessage k sourceType lastError =
     ''Could not resolve placeholder for key '' @ sq @ k @ sq @ '' from source '' @ sq
       @ sourceType @ sq @ ''. Last error: ''
       @ (case lastError of
            None \<Rightarrow> ''No sources available''
          | Some msg \<Rightarrow> if msg \<noteq> [] then msg else ''No sources available'')"

definition resolvePlaceholder :: "resolver \<Rightarrow> string \<Rightarrow> string \<Rightarrow> string \<Rightarrow> string option
    \<Rightarrow> resolver \<times> (string + string)" where
  "resolvePlaceholder st n sourceType k d =
     (let cacheKey = n @ '':'' @ sourceType @ '':'' @ k in
      case getCachedValue st cacheKey of
        (st1, Some cachedValue) \<Rightarrow> (st1, Inr cachedValue)
      | (st1, None) \<Rightarrow>
          (case trySources st1 cacheKey k (getOrderedSources st1 sourceType) None of
             (st2, Some resolvedValue, lastError) \<Rightarrow> (st2, Inr resolvedValue)
           | (st2, None, lastError) \<Rightarrow>
               (case d of
                  Some dv \<Rightarrow> (st2, Inr dv)
                | None \<Rightarrow> (st2, Inl (unresolvedMessage k sourceType lastError)))))"

section \<open>String replacement\<close>

text \<open>
  \<open>str.replace(searchString, replaceValue)\<close> with two strings replaces the first
  occurrence only, and expands the replacement text (\<open>GetSubstitution\<close>): \<open>$$\<close> is one
  dollar sign, \<open>$&\<close> the matched text, a dollar and a backtick the text preceding the match,
  a dollar and an apostrophe the text following it. A search string has no capture groups,
  so \<open>$1\<close>, \<open>$<\<close> and a dollar preceding any other character stay as they are.
\<close>

fun find_first :: "string \<Rightarrow> string \<Rightarrow> (string \<times> string) option" where
  "find_first pat [] = (if pat = [] then Some ([], []) else None)"
| "find_first pat (c # cs) =
     (if take (length pat) (c # cs) = pat then Some ([], drop (length pat) (c # cs))
      else (case find_first pat cs of
              None \<Rightarrow> None
            | Some (preceding, following) \<Rightarrow> Some (c # preceding, following)))"

fun get_substitution :: "string \<Rightarrow> string \<Rightarrow> string \<Rightarrow> string \<Rightarrow> string" where
  "get_substitution matched preceding following [] = []"
| "get_substitution matched preceding following [c] = [c]"
| "get_substitution matched preceding following (c # d # r) =
     (if c = CHR ''$'' \<and> d = CHR ''$'' then CHR ''$'' # get_substitution matched preceding following r
      else if c = CHR ''$'' \<and> d = CHR 0x60 then preceding @ get_substitution matched preceding following r
      else if c = CHR ''$'' \<and> d = CHR ''&'' then matched @ get_substitution matched preceding following r
      else if c = CHR ''$'' \<and> d = CHR 0x27 then following @ get_substitution matched preceding following r
      else c # get_substitution matched preceding following (d # r))"

definition js_replace :: "string \<Rightarrow> string \<Rightarrow> string \<Rightarrow> string" where
  "js_replace str searchString replaceValue =
     (case find_first searchString str of
        None \<Rightarrow> str
      | Some (preceding, following) \<Rightarrow>
          preceding @ get_substitution searchString preceding following replaceValue @ following)"

section \<open>Resolving a text\<close>

fun truthy :: "jsval \<Rightarrow> bool" where
  "truthy JUndefined = False"
| "truthy JNull = False"
| "truthy (JBool b) = b"
| "truthy (JNum n) = (n \<noteq> 0)"
| "truthy (JStr s) = (s \<noteq> [])"
| "truthy (JObj a) = True"

text \<open>The operators \<open>!\<close> and \<open>typeof\<close>.\<close>

fun falsy :: "jsval \<Rightarrow> bool" where
  "falsy JUndefined = True"
| "falsy JNull = True"
| "falsy (JBool b) = (\<not> b)"
| "falsy (JNum n) = (n = 0)"
| "falsy (JStr s) = (s = [])"
| "falsy (JObj a) = False"

fun typeof :: "jsval \<Rightarrow> string" where
  "typeof JUndefined = ''undefined''"
| "typeof JNull = ''object''"
| "typeof (JBool b) = ''boolean''"
| "typeof (JNum n) = ''number''"
| "typeof (JStr s) = ''string''"
| "typeof (JObj a) = ''object''"

text \<open>The loop of \<open>resolveText\<close> over the matches, with \<open>resolvedText\<close> as accumulator.
  A rejected \<open>resolvePlaceholder\<close> is logged; the text is then either given the default or
  the whole call is rejected.\<close>

fun resolveMatches :: "resolver \<Rightarrow> string \<Rightarrow> (string \<times> placeholder) list
    \<Rightarrow> resolver \<times> (string + string)" where
  "resolveMatches st resolvedText [] = (st, Inr resolvedText)"
| "resolveMatches st resolvedText ((fullMatch, p) # rest) =
     (case resolvePlaceholder st (name p) (source p) (key p) (defaultValue p) of
        (st1, Inr resolvedValue) \<Rightarrow>
          resolveMatches st1 (js_replace resolvedText fullMatch resolvedValue) rest
      | (st1, Inl msg) \<Rightarrow>
          (let st2 = st1\<lparr>console := console st1
                       @ [''Failed to resolve placeholder '' @ fullMatch @ '': '' @ msg]\<rparr> in
           case defaultValue p of
             Some dv \<Rightarrow> resolveMatches st2 (js_replace resolvedText fullMatch dv) rest
           | None \<Rightarrow>
               (st2, Inl (''Failed to resolve required placeholder '' @ fullMatch
                           @ '': '' @ msg))))"

definition resolveText :: "resolver \<Rightarrow> jsval \<Rightarrow> resolver \<times> (string + jsval)" where
  "resolveText st text =
     (if falsy text \<or> typeof text \<noteq> ''string'' then (st, Inr text)
      else (case text of
              JStr s \<Rightarrow>
                (case resolveMatches st s (matchAll s) of
                   (st1, Inl msg) \<Rightarrow> (st1, Inl msg)
                 | (st1, Inr resolvedText) \<Rightarrow> (st1, Inr (JStr resolvedText)))
            | _ \<Rightarrow> (st, Inr text)))"

section \<open>The plugin: masking and the step handler\<close>

definition is_secret_char :: "char \<Rightarrow> bool" where
  "is_secret_char c =
     (let n = (of_char c :: nat) in
      (97 \<le> n \<and> n \<le> 122) \<or> (65 \<le> n \<and> n \<le> 90) \<or> (48 \<le> n \<and> n \<le> 57)
        \<or> c = CHR ''+'' \<or> c = CHR ''/'')"

text \<open>\<open>message.replace(/([a-zA-Z0-9+/]{20,})/g, '****')\<close>: at each position the greedy
  quantifier takes the whole run of class characters; with 20 or more the run is
  replaced and the scan resumes behind it, otherwise the character is kept.\<close>

function maskSensitiveInfo :: "string \<Rightarrow> string" where
  "maskSensitiveInfo [] = []"
| "maskSensitiveInfo (c # cs) =
     (if 20 \<le> length (takeWhile is_secret_char (c # cs))
      then ''****'' @ maskSensitiveInfo (dropWhile is_secret_char (c # cs))
      else c # maskSensitiveInfo cs)"
  by pat_completeness auto
termination
proof (relation "measure length")
  fix c :: char and cs :: string
  assume "20 \<le> length (takeWhile is_secret_char (c # cs))"
  then have "is_secret_char c"
    by (auto split: if_splits)
  then have "length (dropWhile is_secret_char (c # cs)) \<le> length cs"
    by (simp add: length_dropWhile_le)
  then show "(dropWhile is_secret_char (c # cs), c # cs) \<in> measure length"
    by simp
qed simp_all

text \<open>
  The part of the request that \<open>handleStepExecutionStarting\<close> reads and updates: the
  current step with its texts and, when present, the texts of its fragments.
\<close>

record step =
  actualText :: jsval
  parsedText :: jsval
  fragments :: "jsval list option"

record execution_result =
  failed :: bool
  errorMessage :: "string option"

text \<open>The loop over the fragments; a fragment already updated stays updated when a
  later one is rejected.\<close>

fun resolveFragments :: "resolver \<Rightarrow> jsval list \<Rightarrow> resolver \<times> jsval list \<times> string option" where
  "resolveFragments st [] = (st, [], None)"
| "resolveFragments st (t # ts) =
     (if truthy t then
        (case resolveText st t of
           (st1, Inl msg) \<Rightarrow> (st1, t # ts, Some msg)
         | (st1, Inr t') \<Rightarrow>
             (case resolveFragments st1 ts of (st2, ts', e) \<Rightarrow> (st2, t' # ts', e)))
      else (case resolveFragments st ts of (st2, ts', e) \<Rightarrow> (st2, t # ts', e)))"

definition stepFailure :: "resolver \<Rightarrow> string \<Rightarrow> resolver \<times> execution_result" where
  "stepFailure st msg =
     (st\<lparr>console := console st @ [''Error resolving step parameters: '' @ msg]\<rparr>,
      \<lparr>failed = True,
       errorMessage = Some (''Parameter resolution failed: '' @ maskSensitiveInfo msg)\<rparr>)"

definition handleStepExecutionStarting :: "resolver \<Rightarrow> step option
    \<Rightarrow> resolver \<times> step option \<times> execution_result" where
  "handleStepExecutionStarting st currentStep =
     (case currentStep of
        None \<Rightarrow> (st, None, \<lparr>failed = False, errorMessage = None\<rparr>)
      | Some stp \<Rightarrow>
          if \<not> truthy (actualText stp) then (st, Some stp, \<lparr>failed = False, errorMessage = None\<rparr>)
          else
            (case resolveText st (actualText stp) of
               (st1, Inl msg) \<Rightarrow>
                 (case stepFailure st1 msg of (st2, res) \<Rightarrow> (st2, Some stp, res))
             | (st1, Inr resolvedText) \<Rightarrow>
                 (let stp1 = stp\<lparr>actualText := resolvedText, parsedText := resolvedText\<rparr> in
                  case fragments stp1 of
                    None \<Rightarrow> (st1, Some stp1, \<lparr>failed = False, errorMessage = None\<rparr>)
                  | Some ts \<Rightarrow>
                      (case resolveFragments st1 ts of
                         (st2, ts', None) \<Rightarrow>
                           (st2, Some (stp1\<lparr>fragments := Some ts'\<rparr>),
                            \<lparr>failed = False, errorMessage = None\<rparr>)
                       | (st2, ts', Some msg) \<Rightarrow>
                           (case stepFailure st2 msg of
                              (st3, res) \<Rightarrow> (st3, Some (stp1\<lparr>fragments := Some ts'\<rparr>), res))))))"

section \<open>The preprocessor\<close>

text \<open>
  A path is the list of its components. The file system holds the contents of the files,
  the directories that exist, and the paths at which the operating system refuses to
  create or write (\<open>EACCES\<close>).
\<close>

type_synonym path = "string list"

record fsys =
  files :: "path \<rightharpoonup> string"
  dirs :: "path set"
  denied :: "path set"

text \<open>The errors of the file system by their code; the message is the code with its
  description, without the system call and path that Node appends.\<close>

datatype fs_error = EACCES | EEXIST | ENOENT | EISDIR | EINVAL

fun fs_message :: "fs_error \<Rightarrow> string" where
  "fs_message EACCES = ''EACCES: permission denied''"
| "fs_message EEXIST = ''EEXIST: file already exists''"
| "fs_message ENOENT = ''ENOENT: no such file or directory''"
| "fs_message EISDIR = ''EISDIR: illegal operation on a directory''"
| "fs_message EINVAL = ''ERR_INVALID_ARG_TYPE: the data argument must be a string''"

fun path_str :: "path \<Rightarrow> string" where
  "path_str [] = ''.''"
| "path_str [c] = c"
| "path_str (c # cs) = c @ ''/'' @ path_str cs"

text \<open>\<open>path.join\<close>, \<open>path.relative\<close> and \<open>path.dirname\<close> on component lists.\<close>

fun normalize :: "path \<Rightarrow> path \<Rightarrow> path" where
  "normalize done [] = done"
| "normalize done (c # cs) =
     (if c = ''..'' \<and> done \<noteq> [] \<and> last done \<noteq> ''..'' then normalize (butlast done) cs
      else normalize (done @ [c]) cs)"

definition path_join :: "path \<Rightarrow> path \<Rightarrow> path" where
  "path_join a b = normalize [] (a @ b)"

fun path_relative :: "path \<Rightarrow> path \<Rightarrow> path" where
  "path_relative (a # as) (b # bs) =
     (if a = b then path_relative as bs else replicate (length (a # as)) ''..'' @ (b # bs))"
| "path_relative as bs = replicate (length as) ''..'' @ bs"

definition path_dirname :: "path \<Rightarrow> path" where
  "path_dirname p = butlast p"

text \<open>\<open>path.extname\<close>: from the last dot of the name on, and empty when there is no dot
  or the only dot starts the name. \<open>toLowerCase\<close> on the letters of ASCII.\<close>

fun extname_from :: "string \<Rightarrow> string option" where
  "extname_from [] = None"
| "extname_from (c # cs) =
     (case extname_from cs of
        Some e \<Rightarrow> Some e
      | None \<Rightarrow> if c = CHR ''.'' then Some (c # cs) else None)"

definition path_extname :: "string \<Rightarrow> string" where
  "path_extname filename =
     (case filename of
        [] \<Rightarrow> []
      | c # cs \<Rightarrow> (case extname_from cs of None \<Rightarrow> [] | Some e \<Rightarrow> e))"

definition toLowerCase :: "string \<Rightarrow> string" where
  "toLowerCase s =
     map (\<lambda>c. let n = (of_char c :: nat) in if 65 \<le> n \<and> n \<le> 90 then char_of (n + 32) else c) s"

definition isSpecFile :: "string \<Rightarrow> bool" where
  "isSpecFile filename =
     (let specExtensions = [''.spec'', ''.md''];
          ext = toLowerCase (path_extname filename)
      in ext \<in> set specExtensions)"

text \<open>The operations of \<open>fs.promises\<close>. \<open>mkdir\<close> with \<open>recursive: true\<close> creates the
  missing ancestors and accepts a directory that exists; it fails on a file of that
  name.\<close>

definition fs_mkdir :: "fsys \<Rightarrow> path \<Rightarrow> fs_error + fsys" where
  "fs_mkdir fs dirPath =
     (if dirPath \<in> denied fs then Inl EACCES
      else if files fs dirPath \<noteq> None then Inl EEXIST
      else Inr (fs\<lparr>dirs := dirs fs \<union> set (map (\<lambda>i. take i dirPath) [0..<Suc (length dirPath)])\<rparr>))"

definition fs_readFile :: "fsys \<Rightarrow> path \<Rightarrow> fs_error + string" where
  "fs_readFile fs p = (case files fs p of None \<Rightarrow> Inl ENOENT | Some content \<Rightarrow> Inr content)"

definition fs_writeFile :: "fsys \<Rightarrow> path \<Rightarrow> jsval \<Rightarrow> fs_error + fsys" where
  "fs_writeFile fs p v =
     (case v of
        JStr content \<Rightarrow>
          (if p \<in> denied fs then Inl EACCES
           else if p \<in> dirs fs then Inl EISDIR
           else if path_dirname p \<notin> dirs fs then Inl ENOENT
           else Inr (fs\<lparr>files := (files fs)(p \<mapsto> content)\<rparr>))
      | _ \<Rightarrow> Inl EINVAL)"

definition fs_copyFile :: "fsys \<Rightarrow> path \<Rightarrow> path \<Rightarrow> fs_error + fsys" where
  "fs_copyFile fs sourcePath targetPath =
     (case files fs sourcePath of
        None \<Rightarrow> Inl ENOENT
      | Some content \<Rightarrow> fs_writeFile fs targetPath (JStr content))"

definition ensureDirectoryExists :: "fsys \<Rightarrow> path \<Rightarrow> string + fsys" where
  "ensureDirectoryExists fs dirPath =
     (case fs_mkdir fs dirPath of
        Inr fs1 \<Rightarrow> Inr fs1
      | Inl e \<Rightarrow>
          if e \<noteq> EEXIST
          then Inl (''Failed to create directory '' @ path_str dirPath @ '': '' @ fs_message e)
          else Inr fs)"

definition copyFile :: "fsys \<Rightarrow> path \<Rightarrow> path \<Rightarrow> fsys \<times> (string + unit)" where
  "copyFile fs sourcePath targetPath =
     (let wrap = (\<lambda>msg. ''Failed to copy file from '' @ path_str sourcePath @ '' to ''
                          @ path_str targetPath @ '': '' @ msg) in
      case ensureDirectoryExists fs (path_dirname targetPath) of
        Inl msg \<Rightarrow> (fs, Inl (wrap msg))
      | Inr fs1 \<Rightarrow>
          (case fs_copyFile fs1 sourcePath targetPath of
             Inl e \<Rightarrow> (fs1, Inl (wrap (fs_message e)))
           | Inr fs2 \<Rightarrow> (fs2, Inr ())))"

text \<open>The body of the \<open>try\<close> block of \<open>processSpecFile\<close>; a rejected step leaves the
  state as it is at that point.\<close>

definition processSpecFile_try :: "resolver \<Rightarrow> fsys \<Rightarrow> path \<Rightarrow> path
    \<Rightarrow> (resolver \<times> fsys) \<times> (string + unit)" where
  "processSpecFile_try st fs sourcePath targetPath =
     (let st0 = st\<lparr>console := console st @ [''Processing spec file: '' @ path_str sourcePath]\<rparr> in
      case fs_readFile fs sourcePath of
        Inl e \<Rightarrow> ((st0, fs), Inl (fs_message e))
      | Inr content \<Rightarrow>
          (case resolveText st0 (JStr content) of
             (st1, Inl msg) \<Rightarrow> ((st1, fs), Inl msg)
           | (st1, Inr resolvedContent) \<Rightarrow>
               (case ensureDirectoryExists fs (path_dirname targetPath) of
                  Inl msg \<Rightarrow> ((st1, fs), Inl msg)
                | Inr fs1 \<Rightarrow>
                    (case fs_writeFile fs1 targetPath resolvedContent of
                       Inl e \<Rightarrow> ((st1, fs1), Inl (fs_message e))
                     | Inr fs2 \<Rightarrow>
                         ((st1\<lparr>console := console st1
                               @ [''Resolved placeholders in: '' @ path_str sourcePath
                                    @ '' -> '' @ path_str targetPath]\<rparr>, fs2), Inr ())))))"

definition processSpecFile :: "resolver \<Rightarrow> fsys \<Rightarrow> path \<Rightarrow> path
    \<Rightarrow> (resolver \<times> fsys) \<times> (string + unit)" where
  "processSpecFile st fs sourcePath targetPath =
     (case processSpecFile_try st fs sourcePath targetPath of
        ((st1, fs1), Inr u) \<Rightarrow> ((st1, fs1), Inr u)
      | ((st1, fs1), Inl msg) \<Rightarrow>
          (let st2 = st1\<lparr>console := console st1
                       @ [''Failed to process spec file '' @ path_str sourcePath @ '': '' @ msg]\<rparr> in
           case copyFile fs1 sourcePath targetPath of
             (fs2, Inr u) \<Rightarrow>
               ((st2\<lparr>console := console st2
                     @ [''Copied original file due to processing error: ''
                          @ path_str sourcePath]\<rparr>, fs2), Inr ())
           | (fs2, Inl copyError) \<Rightarrow>
               ((st2, fs2), Inl (''Failed to process or copy spec file '' @ path_str sourcePath
                                  @ '': '' @ msg))))"

text \<open>What \<open>readdir\<close> with \<open>withFileTypes\<close> lists: directories with their own entries,
  regular files, and entries that are neither. \<open>processItems\<close> is the \<open>for\<close> loop of
  \<open>processDirectoryRecursive\<close>; for a subdirectory it runs the loop on the entries of
  the subdirectory and, as the \<open>catch\<close> of the recursive call does, rethrows with the
  name of that directory.\<close>

datatype dirent = Directory string "dirent list" | RegularFile string | OtherEntry string

fun processItems :: "resolver \<Rightarrow> fsys \<Rightarrow> path \<Rightarrow> path \<Rightarrow> path \<Rightarrow> dirent list
    \<Rightarrow> (resolver \<times> fsys) \<times> (string + unit)" where
  "processItems st fs currentDir outDir baseDir [] = ((st, fs), Inr ())"
| "processItems st fs currentDir outDir baseDir (Directory nm items # rest) =
     (let sourcePath = path_join currentDir [nm];
          relativePath = path_relative baseDir sourcePath;
          targetPath = path_join outDir relativePath in
      case ensureDirectoryExists fs targetPath of
        Inl msg \<Rightarrow> ((st, fs), Inl msg)
      | Inr fs1 \<Rightarrow>
          (case processItems st fs1 sourcePath outDir baseDir items of
             ((st2, fs2), Inl msg) \<Rightarrow>
               ((st2, fs2), Inl (''Failed to process directory '' @ path_str sourcePath
                                  @ '': '' @ msg))
           | ((st2, fs2), Inr u) \<Rightarrow> processItems st2 fs2 currentDir outDir baseDir rest))"
| "processItems st fs currentDir outDir baseDir (RegularFile nm # rest) =
     (let sourcePath = path_join currentDir [nm];
          relativePath = path_relative baseDir sourcePath;
          targetPath = path_join outDir relativePath in
      if isSpecFile nm then
        (case processSpecFile st fs sourcePath targetPath of
           ((st1, fs1), Inl msg) \<Rightarrow> ((st1, fs1), Inl msg)
         | ((st1, fs1), Inr u) \<Rightarrow> processItems st1 fs1 currentDir outDir baseDir rest)
      else
        (case copyFile fs sourcePath targetPath of
           (fs1, Inl msg) \<Rightarrow> ((st, fs1), Inl msg)
         | (fs1, Inr u) \<Rightarrow> processItems st fs1 currentDir outDir baseDir rest))"
| "processItems st fs currentDir outDir baseDir (OtherEntry nm # rest) =
     (let sourcePath = path_join currentDir [nm];
          relativePath = path_relative baseDir sourcePath;
          targetPath = path_join outDir relativePath in
      case copyFile fs sourcePath targetPath of
        (fs1, Inl msg) \<Rightarrow> ((st, fs1), Inl msg)
      | (fs1, Inr u) \<Rightarrow> processItems st fs1 currentDir outDir baseDir rest)"




section \<open>Reading outcomes, and example configurations\<close>

fun yields :: "outcome \<Rightarrow> string option" where
  "yields (Returns (Some v)) = Some v"
| "yields (Returns None) = None"
| "yields (Throws msg) = None"

fun thrown :: "outcome \<Rightarrow> string option" where
  "thrown (Throws msg) = Some msg"
| "thrown (Returns r) = None"

text \<open>The sources of a list whose call for the key throws, with the message, in order;
  the warning lines they cause; and \<open>lastError\<close> after them.\<close>

definition failures :: "string \<Rightarrow> source_instance list \<Rightarrow> (string \<times> string) list" where
  "failures k ps = List.map_filter (\<lambda>p. map_option (\<lambda>msg. (className p, msg)) (thrown (resolve p k))) ps"

definition warnings :: "string \<Rightarrow> source_instance list \<Rightarrow> string list" where
  "warnings k ps =
     map (\<lambda>(cn, msg). ''Source '' @ cn @ '' failed for key '' @ k @ '': '' @ msg) (failures k ps)"

definition last_error :: "string \<Rightarrow> source_instance list \<Rightarrow> string option \<Rightarrow> string option" where
  "last_error k ps lastError =
     (if failures k ps = [] then lastError else Some (snd (last (failures k ps))))"

definition contains :: "string \<Rightarrow> string \<Rightarrow> bool" where
  "contains s t = (find_first t s \<noteq> None)"

text \<open>No position of the text starts a run of 20 or more characters of the class.\<close>

fun no_long_run :: "string \<Rightarrow> bool" where
  "no_long_run [] = True"
| "no_long_run (c # cs) = (length (takeWhile is_secret_char (c # cs)) < 20 \<and> no_long_run cs)"

text \<open>A resolver with the environment source only, \<open>TEST_VAR=test_value\<close>.\<close>

definition env_only :: resolver where
  "env_only =
     \<lparr>sources = [''env'' \<mapsto> EnvSource [''TEST_VAR'' \<mapsto> ''test_value'']],
      cache = Map.empty, cacheTimeout = 60000, now = 1000, calls = [], console = []\<rparr>"

text \<open>A resolver with an environment source and a file source that both hold \<open>KEY\<close>; the
  file source answers nothing else.\<close>

definition file_source :: source_instance where
  "file_source =
     \<lparr>className = ''FileSource'',
      resolve = (\<lambda>k. if k = ''KEY'' then Returns (Some ''from_file'')
                     else Throws (''FileSource failed to resolve key '' @ k))\<rparr>"

definition env_and_file :: resolver where
  "env_and_file =
     \<lparr>sources = [''env'' \<mapsto> EnvSource [''KEY'' \<mapsto> ''from_env'', ''ONLY_ENV'' \<mapsto> ''env_value''],
                 ''file'' \<mapsto> file_source],
      cache = Map.empty, cacheTimeout = 60000, now = 1000, calls = [], console = []\<rparr>"

text \<open>The same with a third source, which returns \<open>null\<close> for \<open>NOPE\<close> and a value for
  every other key.\<close>

definition http_source :: source_instance where
  "http_source =
     \<lparr>className = ''HttpSource'',
      resolve = (\<lambda>k. if k = ''NOPE'' then Returns None else Returns (Some ''from_http''))\<rparr>"

definition three_sources :: resolver where
  "three_sources = env_and_file\<lparr>sources := (sources env_and_file)(''http'' \<mapsto> http_source)\<rparr>"

text \<open>The same resolver 60000 ms after \<open>stale\<close> was cached for \<open><user:env#KEY>\<close>, and
  one millisecond later.\<close>

definition aged_at_ttl :: resolver where
  "aged_at_ttl =
     env_and_file\<lparr>cache := [''user:env:KEY'' \<mapsto> \<lparr>cached_value = ''stale'', timestamp = 1000\<rparr>],
                  now := 61000\<rparr>"

definition aged_past_ttl :: resolver where
  "aged_past_ttl = aged_at_ttl\<lparr>now := 61001\<rparr>"

text \<open>A resolver whose environment holds a value with a dollar pattern.\<close>

definition dollar_env :: resolver where
  "dollar_env =
     \<lparr>sources = [''env'' \<mapsto> EnvSource [''D'' \<mapsto> ''a$&b'']],
      cache = Map.empty, cacheTimeout = 60000, now = 1000, calls = [], console = []\<rparr>"

text \<open>A step whose placeholder has a key of 25 letters that is not set.\<close>

definition token25 :: string where
  "token25 = ''ABCDEFGHIJKLMNOPQRSTUVWXY''"

definition secret_step :: step where
  "secret_step =
     \<lparr>actualText = JStr (''<t:env#'' @ token25 @ ''>''), parsedText = JNull, fragments = None\<rparr>"



section \<open>The placeholder grammar\<close>

lemma class_star_greedy:
  "\<forall>c\<in>set xs. P c \<Longrightarrow> \<not> P d \<Longrightarrow> k (acc @ xs) (d # rest) = Some r
   \<Longrightarrow> class_star P k acc (xs @ d # rest) = Some r"
  by (induction xs arbitrary: acc) auto

lemma class_plus_greedy:
  "xs \<noteq> [] \<Longrightarrow> \<forall>c\<in>set xs. P c \<Longrightarrow> \<not> P d \<Longrightarrow> k xs (d # rest) = Some r
   \<Longrightarrow> class_plus P k (xs @ d # rest) = Some r"
  using class_star_greedy [of "tl xs" P d k "[hd xs]" rest r]
  by (cases xs) (auto simp: class_plus_def)

lemma placeholder_here_plain:
  assumes "n \<noteq> []" "CHR '':'' \<notin> set n" "src \<noteq> []" "CHR ''#'' \<notin> set src"
    and "k \<noteq> []" "CHR ''|'' \<notin> set k" "CHR ''>'' \<notin> set k"
  shows "placeholder_here (''<'' @ n @ '':'' @ src @ ''#'' @ k @ ''>'' @ rest)
         = Some (\<lparr>name = n, source = src, key = k, defaultValue = None\<rparr>, rest)"
proof -
  let ?res = "Some (\<lparr>name = n, source = src, key = k, defaultValue = None\<rparr>, rest)"
  let ?kk = "\<lambda>n src k r.
            (case lit CHR ''|'' (class_plus (\<lambda>c. c \<noteq> CHR ''>'') (\<lambda>d. lit CHR ''>''
                    (\<lambda>r'. Some (\<lparr>name = n, source = src, key = k, defaultValue = Some d\<rparr>, r')))) r of
               Some x \<Rightarrow> Some x
             | None \<Rightarrow> lit CHR ''>''
                    (\<lambda>r'. Some (\<lparr>name = n, source = src, key = k, defaultValue = None\<rparr>, r')) r)"
  have k3: "?kk n src k (CHR ''>'' # rest) = ?res"
    by (simp add: lit_def)
  have c3: "class_plus (\<lambda>c. c \<noteq> CHR ''|'' \<and> c \<noteq> CHR ''>'') (?kk n src) (k @ CHR ''>'' # rest) = ?res"
    using assms k3 by (intro class_plus_greedy) auto
  have c2: "class_plus (\<lambda>c. c \<noteq> CHR ''#'') (\<lambda>src. lit CHR ''#''
         (class_plus (\<lambda>c. c \<noteq> CHR ''|'' \<and> c \<noteq> CHR ''>'') (?kk n src)))
           (src @ CHR ''#'' # k @ CHR ''>'' # rest) = ?res"
    using assms c3 by (intro class_plus_greedy) (auto simp: lit_def)
  have c1: "class_plus (\<lambda>c. c \<noteq> CHR '':'') (\<lambda>n. lit CHR '':''
         (class_plus (\<lambda>c. c \<noteq> CHR ''#'') (\<lambda>src. lit CHR ''#''
           (class_plus (\<lambda>c. c \<noteq> CHR ''|'' \<and> c \<noteq> CHR ''>'') (?kk n src)))))
             (n @ CHR '':'' # src @ CHR ''#'' # k @ CHR ''>'' # rest) = ?res"
    using assms c2 by (intro class_plus_greedy) (auto simp: lit_def)
  show ?thesis
    using c1 by (simp add: placeholder_here_def lit_def)
qed

lemma placeholder_here_default:
  assumes "n \<noteq> []" "CHR '':'' \<notin> set n" "src \<noteq> []" "CHR ''#'' \<notin> set src"
    and "k \<noteq> []" "CHR ''|'' \<notin> set k" "CHR ''>'' \<notin> set k"
    and "dv \<noteq> []" "CHR ''>'' \<notin> set dv"
  shows "placeholder_here (''<'' @ n @ '':'' @ src @ ''#'' @ k @ ''|'' @ dv @ ''>'' @ rest)
         = Some (\<lparr>name = n, source = src, key = k, defaultValue = Some dv\<rparr>, rest)"
proof -
  let ?res = "Some (\<lparr>name = n, source = src, key = k, defaultValue = Some dv\<rparr>, rest)"
  let ?kd = "\<lambda>n src k. (\<lambda>d. lit CHR ''>''
                    (\<lambda>r'. Some (\<lparr>name = n, source = src, key = k, defaultValue = Some d\<rparr>, r')))"
  let ?kk = "\<lambda>n src k r.
            (case lit CHR ''|'' (class_plus (\<lambda>c. c \<noteq> CHR ''>'') (?kd n src k)) r of
               Some x \<Rightarrow> Some x
             | None \<Rightarrow> lit CHR ''>''
                    (\<lambda>r'. Some (\<lparr>name = n, source = src, key = k, defaultValue = None\<rparr>, r')) r)"
  have c4: "class_plus (\<lambda>c. c \<noteq> CHR ''>'') (?kd n src k) (dv @ CHR ''>'' # rest) = ?res"
    using assms by (intro class_plus_greedy) (auto simp: lit_def)
  have k3: "?kk n src k (CHR ''|'' # dv @ CHR ''>'' # rest) = ?res"
    using c4 by (simp add: lit_def)
  have c3: "class_plus (\<lambda>c. c \<noteq> CHR ''|'' \<and> c \<noteq> CHR ''>'') (?kk n src)
              (k @ CHR ''|'' # dv @ CHR ''>'' # rest) = ?res"
    using assms k3 by (intro class_plus_greedy) auto
  have c2: "class_plus (\<lambda>c. c \<noteq> CHR ''#'') (\<lambda>src. lit CHR ''#''
         (class_plus (\<lambda>c. c \<noteq> CHR ''|'' \<and> c \<noteq> CHR ''>'') (?kk n src)))
           (src @ CHR ''#'' # k @ CHR ''|'' # dv @ CHR ''>'' # rest) = ?res"
    using assms c3 by (intro class_plus_greedy) (auto simp: lit_def)
  have c1: "class_plus (\<lambda>c. c \<noteq> CHR '':'') (\<lambda>n. lit CHR '':''
         (class_plus (\<lambda>c. c \<noteq> CHR ''#'') (\<lambda>src. lit CHR ''#''
           (class_plus (\<lambda>c. c \<noteq> CHR ''|'' \<and> c \<noteq> CHR ''>'') (?kk n src)))))
             (n @ CHR '':'' # src @ CHR ''#'' # k @ CHR ''|'' # dv @ CHR ''>'' # rest) = ?res"
    using assms c2 by (intro class_plus_greedy) (auto simp: lit_def)
  show ?thesis
    using c1 by (simp add: placeholder_here_def lit_def)
qed

text \<open>
  Claim C4, as stated, at an empty default: \<open>createPlaceholder\<close> writes the bar for every
  default that is not \<open>null\<close>, also the empty string, and the group \<open>([^>]+)\<close> wants at
  least one character, so \<open><n:s#k|>\<close> does not parse at all.
\<close>

theorem parse_create_empty_default_counterexample:
  "parsePlaceholder (createPlaceholder ''n'' ''s'' ''k'' (Some ''''))
     = Inl ''Invalid placeholder syntax: <n:s#k|>''"
  by (simp add: parsePlaceholder_def createPlaceholder_def placeholder_here_def lit_def
      class_plus_def)

text \<open>
  Claim C4, amended: for a name that is not empty and has no colon, a source that is
  not empty and has no \<open>#\<close>, a key that is not empty and has neither \<open>|\<close> nor \<open>>\<close>, and
  a default that, when present, is not empty and has no \<open>>\<close>, parsing the created
  placeholder gives back exactly the name, the source, the key and the default (absent
  when none was given).
\<close>

theorem parse_create_roundtrip:
  assumes "n \<noteq> []" "CHR '':'' \<notin> set n" "src \<noteq> []" "CHR ''#'' \<notin> set src"
    and "k \<noteq> []" "CHR ''|'' \<notin> set k" "CHR ''>'' \<notin> set k"
    and "\<forall>dv. d = Some dv \<longrightarrow> dv \<noteq> [] \<and> CHR ''>'' \<notin> set dv"
  shows "parsePlaceholder (createPlaceholder n src k d)
         = Inr \<lparr>name = n, source = src, key = k, defaultValue = d\<rparr>"
proof (cases d)
  case None
  then show ?thesis
    using placeholder_here_plain [OF assms(1-7), of "[]"]
    by (simp add: parsePlaceholder_def createPlaceholder_def)
next
  case (Some dv)
  then show ?thesis
    using placeholder_here_default [OF assms(1-7), of dv "[]"] assms(8)
    by (simp add: parsePlaceholder_def createPlaceholder_def)
qed

theorem parse_create_roundtrip_witness:
  "parsePlaceholder (createPlaceholder ''user'' ''env'' ''TEST_VAR'' (Some ''a|b''))
     = Inr \<lparr>name = ''user'', source = ''env'', key = ''TEST_VAR'', defaultValue = Some ''a|b''\<rparr>
   \<and> parsePlaceholder (createPlaceholder ''user'' ''env'' ''TEST_VAR'' None)
     = Inr \<lparr>name = ''user'', source = ''env'', key = ''TEST_VAR'', defaultValue = None\<rparr>"
  using parse_create_roundtrip [of "''user''" "''env''" "''TEST_VAR''" "Some ''a|b''"]
        parse_create_roundtrip [of "''user''" "''env''" "''TEST_VAR''" None]
  by simp

section \<open>Texts that are passed through\<close>

text \<open>
  Claim C10: for \<open>null\<close>, \<open>undefined\<close>, the empty string and every value that is not a
  string, \<open>resolveText\<close> returns the input itself and leaves the resolver as it was: the
  cache is not read or changed and no source is called.
\<close>

theorem resolveText_passthrough:
  "v = JNull \<or> v = JUndefined \<or> v = JStr [] \<or> typeof v \<noteq> ''string''
   \<Longrightarrow> resolveText st v = (st, Inr v)"
  by (cases v) (auto simp: resolveText_def)

theorem resolveText_passthrough_witness:
  "resolveText env_only JNull = (env_only, Inr JNull)
   \<and> resolveText env_only JUndefined = (env_only, Inr JUndefined)
   \<and> resolveText env_only (JStr []) = (env_only, Inr (JStr []))
   \<and> resolveText env_only (JNum 5) = (env_only, Inr (JNum 5))
   \<and> resolveText env_only (JObj 0) = (env_only, Inr (JObj 0))"
  using resolveText_passthrough [of JNull env_only]
        resolveText_passthrough [of JUndefined env_only]
        resolveText_passthrough [of "JStr []" env_only]
        resolveText_passthrough [of "JNum 5" env_only]
        resolveText_passthrough [of "JObj 0" env_only]
  by simp

section \<open>The cache and the ordered sources\<close>

lemma getCachedValue_miss:
  "snd (getCachedValue st k) = None
   \<Longrightarrow> getCachedValue st k = (st\<lparr>cache := (cache st)(k := None)\<rparr>, None)"
  by (auto simp: getCachedValue_def fun_upd_idem split: option.splits if_splits)

lemma otherSources_filter:
  "otherSources st s xs
   = map (\<lambda>i. the (sources st i)) (filter (\<lambda>i. sources st i \<noteq> None) (removeAll s xs))"
  by (induction xs) (auto split: option.splits)

lemma otherSources_cache [simp]:
  "otherSources (st\<lparr>cache := c\<rparr>) s xs = otherSources st s xs"
  by (induction xs) (auto split: option.splits)

lemma getOrderedSources_cache [simp]:
  "getOrderedSources (st\<lparr>cache := c\<rparr>) s = getOrderedSources st s"
  by (simp add: getOrderedSources_def)

lemma failures_Cons:
  "failures k (p # ps)
   = (case thrown (resolve p k) of None \<Rightarrow> [] | Some msg \<Rightarrow> [(className p, msg)]) @ failures k ps"
  by (simp add: failures_def map_filter_def split: option.splits)

text \<open>Sources that do not produce a value are passed one after the other: each is called
  once, each thrown error leaves a warning and becomes \<open>lastError\<close>.\<close>

lemma trySources_skip:
  "\<forall>p\<in>set pre. yields (resolve p k) = None \<Longrightarrow>
   trySources st ck k (pre @ rest) le
   = trySources (st\<lparr>calls := calls st @ map (\<lambda>p. (className p, k)) pre,
                    console := console st @ warnings k pre\<rparr>) ck k rest (last_error k pre le)"
proof (induction pre arbitrary: st le)
  case Nil
  then show ?case by (simp add: warnings_def last_error_def failures_def map_filter_def)
next
  case (Cons p pre)
  then have IH: "\<And>st le. trySources st ck k (pre @ rest) le
   = trySources (st\<lparr>calls := calls st @ map (\<lambda>p. (className p, k)) pre,
                    console := console st @ warnings k pre\<rparr>) ck k rest (last_error k pre le)"
    by simp
  from Cons.prems have y: "yields (resolve p k) = None" by simp
  show ?case
  proof (cases "resolve p k")
    case (Throws msg)
    then show ?thesis
      by (simp add: IH warnings_def last_error_def failures_Cons)
  next
    case (Returns r)
    with y have "r = None" by (cases r) auto
    with Returns show ?thesis
      by (simp add: IH warnings_def last_error_def failures_Cons)
  qed
qed

lemma trySources_all_fail:
  "\<forall>p\<in>set ps. yields (resolve p k) = None \<Longrightarrow>
   trySources st ck k ps le
   = (st\<lparr>calls := calls st @ map (\<lambda>p. (className p, k)) ps,
         console := console st @ warnings k ps\<rparr>, None, last_error k ps le)"
  using trySources_skip [of ps k st ck "[]" le] by simp

lemma trySources_first_success:
  assumes "\<forall>p\<in>set pre. yields (resolve p k) = None" and "resolve src k = Returns (Some v)"
  shows "trySources st ck k (pre @ src # post) le
   = (st\<lparr>cache := (cache st)(ck \<mapsto> \<lparr>cached_value = v, timestamp = now st\<rparr>),
         calls := calls st @ map (\<lambda>p. (className p, k)) (pre @ [src]),
         console := console st @ warnings k pre\<rparr>, Some v, last_error k pre le)"
  using assms by (simp add: trySources_skip setCachedValue_def)

lemma failures_append:
  "failures k (xs @ ys) = failures k xs @ failures k ys"
  by (simp add: failures_def map_filter_def)

lemma failures_none_thrown:
  "\<forall>p\<in>set ps. resolve p k = Returns None \<Longrightarrow> failures k ps = []"
  by (induction ps) (simp_all add: failures_Cons, simp add: failures_def map_filter_def)

lemma failures_last_thrown:
  assumes "resolve q k = Throws msg" and "\<forall>p\<in>set pre2. resolve p k = Returns None"
  shows "failures k (pre1 @ q # pre2) = failures k pre1 @ [(className q, msg)]"
  using assms by (simp add: failures_append failures_Cons failures_none_thrown)

text \<open>
  Claim C1: on a cache miss, when the sources \<open>pre\<close> at the front of the chain produce no
  value for the key (they throw, or return \<open>null\<close>/\<open>undefined\<close>) and the next source
  \<open>src\<close> returns the value \<open>v\<close>, \<open>resolvePlaceholder\<close> returns \<open>v\<close>, has stored \<open>v\<close> in the
  top-level cache under the placeholder's cache key, and has called exactly the sources
  \<open>pre\<close> and \<open>src\<close>, in this order: no source of \<open>post\<close>, the rest of the chain, is called,
  and every source that threw was passed with a warning. When the whole chain is \<open>pre\<close>,
  there is no default, and \<open>q\<close> is the last source of the chain that threw, with the
  message \<open>msg\<close>, then the error raised ends with \<open>Last error:\<close> and \<open>msg\<close>: the messages
  of the sources that threw before \<open>q\<close> are not in it.
\<close>

theorem resolvePlaceholder_first_value_wins:
  assumes "snd (getCachedValue st (n @ '':'' @ s @ '':'' @ k)) = None"
    and "\<forall>p\<in>set pre. yields (resolve p k) = None"
  shows "(\<forall>src v post.
            getOrderedSources st s = pre @ src # post \<and> resolve src k = Returns (Some v) \<longrightarrow>
            resolvePlaceholder st n s k d
            = (st\<lparr>cache := (cache st)(n @ '':'' @ s @ '':'' @ k
                        \<mapsto> \<lparr>cached_value = v, timestamp = now st\<rparr>),
                  calls := calls st @ map (\<lambda>p. (className p, k)) (pre @ [src]),
                  console := console st @ warnings k pre\<rparr>, Inr v))
       \<and> (\<forall>pre1 q msg pre2.
            getOrderedSources st s = pre \<and> d = None \<and> pre = pre1 @ q # pre2
            \<and> resolve q k = Throws msg \<and> msg \<noteq> []
            \<and> (\<forall>p\<in>set pre2. resolve p k = Returns None) \<longrightarrow>
            snd (resolvePlaceholder st n s k d)
            = Inl (''Could not resolve placeholder for key '' @ sq @ k @ sq @ '' from source ''
                     @ sq @ s @ sq @ ''. Last error: '' @ msg)
            \<and> calls (fst (resolvePlaceholder st n s k d))
              = calls st @ map (\<lambda>p. (className p, k)) pre)"
proof (intro conjI allI impI)
  fix src v post
  assume a: "getOrderedSources st s = pre @ src # post \<and> resolve src k = Returns (Some v)"
  show "resolvePlaceholder st n s k d
        = (st\<lparr>cache := (cache st)(n @ '':'' @ s @ '':'' @ k
                    \<mapsto> \<lparr>cached_value = v, timestamp = now st\<rparr>),
              calls := calls st @ map (\<lambda>p. (className p, k)) (pre @ [src]),
              console := console st @ warnings k pre\<rparr>, Inr v)"
    using a assms(2) getCachedValue_miss [OF assms(1)]
    by (simp add: resolvePlaceholder_def trySources_first_success)
next
  fix pre1 q msg pre2
  assume a: "getOrderedSources st s = pre \<and> d = None \<and> pre = pre1 @ q # pre2
            \<and> resolve q k = Throws msg \<and> msg \<noteq> []
            \<and> (\<forall>p\<in>set pre2. resolve p k = Returns None)"
  then have f: "failures k (pre1 @ q # pre2) = failures k pre1 @ [(className q, msg)]"
    using failures_last_thrown [of q k msg pre2 pre1] by simp
  have r: "resolvePlaceholder st n s k d
      = (st\<lparr>cache := (cache st)(n @ '':'' @ s @ '':'' @ k := None),
            calls := calls st @ map (\<lambda>p. (className p, k)) pre,
            console := console st @ warnings k pre\<rparr>,
         Inl (unresolvedMessage k s (last_error k pre None)))"
    using a assms(2) getCachedValue_miss [OF assms(1)]
    by (simp add: resolvePlaceholder_def trySources_all_fail)
  have m: "unresolvedMessage k s (last_error k pre None)
      = ''Could not resolve placeholder for key '' @ sq @ k @ sq @ '' from source ''
          @ sq @ s @ sq @ ''. Last error: '' @ msg"
    using a by (simp add: unresolvedMessage_def last_error_def f)
  show "snd (resolvePlaceholder st n s k d)
        = Inl (''Could not resolve placeholder for key '' @ sq @ k @ sq @ '' from source ''
                 @ sq @ s @ sq @ ''. Last error: '' @ msg)"
    unfolding r using m by simp
  show "calls (fst (resolvePlaceholder st n s k d))
        = calls st @ map (\<lambda>p. (className p, k)) pre"
    unfolding r by simp
qed

theorem resolvePlaceholder_first_value_wins_witness:
  "snd (getCachedValue three_sources ''user:file:ONLY_ENV'') = None
   \<and> map className (getOrderedSources three_sources ''file'')
       = [''FileSource'', ''EnvSource'', ''HttpSource'']
   \<and> snd (resolvePlaceholder three_sources ''user'' ''file'' ''ONLY_ENV'' None) = Inr ''env_value''
   \<and> calls (fst (resolvePlaceholder three_sources ''user'' ''file'' ''ONLY_ENV'' None))
       = [(''FileSource'', ''ONLY_ENV''), (''EnvSource'', ''ONLY_ENV'')]
   \<and> cache (fst (resolvePlaceholder three_sources ''user'' ''file'' ''ONLY_ENV'' None))
         ''user:file:ONLY_ENV''
       = Some \<lparr>cached_value = ''env_value'', timestamp = 1000\<rparr>
   \<and> snd (resolvePlaceholder three_sources ''user'' ''vault'' ''NOPE'' None)
       = Inl (''Could not resolve placeholder for key '' @ sq @ ''NOPE'' @ sq @ '' from source ''
              @ sq @ ''vault'' @ sq @ ''. Last error: FileSource failed to resolve key NOPE'')
   \<and> calls (fst (resolvePlaceholder three_sources ''user'' ''vault'' ''NOPE'' None))
       = [(''EnvSource'', ''NOPE''), (''FileSource'', ''NOPE''), (''HttpSource'', ''NOPE'')]"
proof -
  let ?env = "EnvSource [''KEY'' \<mapsto> ''from_env'', ''ONLY_ENV'' \<mapsto> ''env_value'']"
  have m1: "snd (getCachedValue three_sources (''user'' @ '':'' @ ''file'' @ '':'' @ ''ONLY_ENV'')) = None"
    by (simp add: getCachedValue_def three_sources_def env_and_file_def)
  have m2: "snd (getCachedValue three_sources (''user'' @ '':'' @ ''vault'' @ '':'' @ ''NOPE'')) = None"
    by (simp add: getCachedValue_def three_sources_def env_and_file_def)
  have f1: "\<forall>p\<in>set [file_source]. yields (resolve p ''ONLY_ENV'') = None"
    by (simp add: file_source_def)
  have f2: "\<forall>p\<in>set [?env, file_source, http_source]. yields (resolve p ''NOPE'') = None"
    by (simp add: file_source_def http_source_def EnvSource_def EnvSource_resolve_def)
  have o1: "getOrderedSources three_sources ''file'' = [file_source] @ ?env # [http_source]"
    by (simp add: getOrderedSources_def three_sources_def env_and_file_def sourcePrecedence_def)
  have o2: "getOrderedSources three_sources ''vault'' = [?env, file_source, http_source]"
    by (simp add: getOrderedSources_def three_sources_def env_and_file_def sourcePrecedence_def)
  have r1: "resolve ?env ''ONLY_ENV'' = Returns (Some ''env_value'')"
    by (simp add: EnvSource_def EnvSource_resolve_def)
  have q2: "[?env, file_source, http_source] = [?env] @ file_source # [http_source]"
    "resolve file_source ''NOPE'' = Throws ''FileSource failed to resolve key NOPE''"
    "''FileSource failed to resolve key NOPE'' \<noteq> []"
    "\<forall>p\<in>set [http_source]. resolve p ''NOPE'' = Returns None"
    by (simp_all add: file_source_def http_source_def)
  from resolvePlaceholder_first_value_wins [OF m1 f1, where d = None] o1 r1
  have a: "resolvePlaceholder three_sources ''user'' ''file'' ''ONLY_ENV'' None
           = (three_sources\<lparr>cache := (cache three_sources)(''user'' @ '':'' @ ''file'' @ '':'' @ ''ONLY_ENV''
                        \<mapsto> \<lparr>cached_value = ''env_value'', timestamp = now three_sources\<rparr>),
                  calls := calls three_sources @ map (\<lambda>p. (className p, ''ONLY_ENV'')) ([file_source] @ [?env]),
                  console := console three_sources @ warnings ''ONLY_ENV'' [file_source]\<rparr>, Inr ''env_value'')"
    by blast
  from resolvePlaceholder_first_value_wins [OF m2 f2, where d = None] o2 q2
  have b: "snd (resolvePlaceholder three_sources ''user'' ''vault'' ''NOPE'' None)
            = Inl (''Could not resolve placeholder for key '' @ sq @ ''NOPE'' @ sq @ '' from source ''
                     @ sq @ ''vault'' @ sq @ ''. Last error: '' @ ''FileSource failed to resolve key NOPE'')
         \<and> calls (fst (resolvePlaceholder three_sources ''user'' ''vault'' ''NOPE'' None))
            = calls three_sources @ map (\<lambda>p. (className p, ''NOPE'')) [?env, file_source, http_source]"
    by blast
  have c: "calls three_sources = []" "now three_sources = 1000"
    "map className [file_source, ?env, http_source] = [''FileSource'', ''EnvSource'', ''HttpSource'']"
    by (simp_all add: three_sources_def env_and_file_def file_source_def http_source_def EnvSource_def)
  show ?thesis
    using m1 a b c unfolding o1 by (simp add: file_source_def http_source_def EnvSource_def)
qed

text \<open>
  Claim C2: the sources tried for a placeholder that declares \<open>s\<close> are \<open>s\<close> followed by
  \<open>env, file, vault, aws, k8s, http\<close> without \<open>s\<close>, in this order, of which only the
  registered identifiers are kept. In particular, when \<open>env\<close> and \<open>file\<close> are both
  registered and both return a value for the key, a placeholder that declares \<open>file\<close>
  resolves (on a cache miss) to the value of \<open>file\<close>, and \<open>file\<close> is the only source called.
\<close>

theorem getOrderedSources_declared_first:
  "getOrderedSources st s
   = map (\<lambda>i. the (sources st i))
       (filter (\<lambda>i. sources st i \<noteq> None)
          (s # removeAll s [''env'', ''file'', ''vault'', ''aws'', ''k8s'', ''http'']))
   \<and> (\<forall>e f ve vf.
         sources st ''env'' = Some e \<and> sources st ''file'' = Some f
         \<and> resolve e k = Returns (Some ve) \<and> resolve f k = Returns (Some vf)
         \<and> snd (getCachedValue st (n @ '':'' @ ''file'' @ '':'' @ k)) = None
         \<longrightarrow> snd (resolvePlaceholder st n ''file'' k d) = Inr vf
             \<and> calls (fst (resolvePlaceholder st n ''file'' k d)) = calls st @ [(className f, k)])"
proof (intro conjI allI impI)
  show "getOrderedSources st s
   = map (\<lambda>i. the (sources st i))
       (filter (\<lambda>i. sources st i \<noteq> None)
          (s # removeAll s [''env'', ''file'', ''vault'', ''aws'', ''k8s'', ''http'']))"
    unfolding getOrderedSources_def otherSources_filter sourcePrecedence_def
    by (cases "sources st s") simp_all
next
  fix e f ve vf
  assume a: "sources st ''env'' = Some e \<and> sources st ''file'' = Some f
         \<and> resolve e k = Returns (Some ve) \<and> resolve f k = Returns (Some vf)
         \<and> snd (getCachedValue st (n @ '':'' @ ''file'' @ '':'' @ k)) = None"
  then have miss: "snd (getCachedValue st (n @ '':'' @ ''file'' @ '':'' @ k)) = None"
    by simp
  from a have "getOrderedSources st ''file'' = [] @ f # otherSources st ''file'' sourcePrecedence"
    by (simp add: getOrderedSources_def)
  then have r: "resolvePlaceholder st n ''file'' k d
      = (st\<lparr>cache := (cache st)(n @ '':'' @ ''file'' @ '':'' @ k
                  \<mapsto> \<lparr>cached_value = vf, timestamp = now st\<rparr>),
            calls := calls st @ map (\<lambda>p. (className p, k)) ([] @ [f]),
            console := console st @ warnings k []\<rparr>, Inr vf)"
    using a getCachedValue_miss [OF miss]
    by (simp add: resolvePlaceholder_def setCachedValue_def warnings_def failures_def
        map_filter_def)
  show "snd (resolvePlaceholder st n ''file'' k d) = Inr vf"
    using r by simp
  show "calls (fst (resolvePlaceholder st n ''file'' k d)) = calls st @ [(className f, k)]"
    using r by simp
qed

theorem getOrderedSources_declared_first_witness:
  "sources env_and_file ''env'' \<noteq> None \<and> sources env_and_file ''file'' = Some file_source
   \<and> snd (getCachedValue env_and_file ''user:file:KEY'') = None
   \<and> map className (getOrderedSources env_and_file ''file'') = [''FileSource'', ''EnvSource'']
   \<and> snd (resolvePlaceholder env_and_file ''user'' ''file'' ''KEY'' None) = Inr ''from_file''
   \<and> calls (fst (resolvePlaceholder env_and_file ''user'' ''file'' ''KEY'' None))
       = [(''FileSource'', ''KEY'')]"
proof -
  let ?env = "EnvSource [''KEY'' \<mapsto> ''from_env'', ''ONLY_ENV'' \<mapsto> ''env_value'']"
  have s1: "sources env_and_file ''env'' = Some ?env"
    by (simp add: env_and_file_def)
  have s2: "sources env_and_file ''file'' = Some file_source"
    by (simp add: env_and_file_def)
  have r1: "resolve ?env ''KEY'' = Returns (Some ''from_env'')"
    by (simp add: EnvSource_def EnvSource_resolve_def)
  have r2: "resolve file_source ''KEY'' = Returns (Some ''from_file'')"
    by (simp add: file_source_def)
  have m: "snd (getCachedValue env_and_file (''user'' @ '':'' @ ''file'' @ '':'' @ ''KEY'')) = None"
    by (simp add: getCachedValue_def env_and_file_def)
  note t = getOrderedSources_declared_first [of env_and_file "''file''" "''KEY''" "''user''" None]
  from t have o: "getOrderedSources env_and_file ''file''
      = map (\<lambda>i. the (sources env_and_file i))
       (filter (\<lambda>i. sources env_and_file i \<noteq> None)
          (''file'' # removeAll ''file'' [''env'', ''file'', ''vault'', ''aws'', ''k8s'', ''http'']))"
    by blast
  have o': "map className (getOrderedSources env_and_file ''file'') = [''FileSource'', ''EnvSource'']"
    unfolding o by (simp add: env_and_file_def file_source_def EnvSource_def)
  from t s1 s2 r1 r2 m
  have p: "snd (resolvePlaceholder env_and_file ''user'' ''file'' ''KEY'' None) = Inr ''from_file''
           \<and> calls (fst (resolvePlaceholder env_and_file ''user'' ''file'' ''KEY'' None))
              = calls env_and_file @ [(className file_source, ''KEY'')]"
    by blast
  have c: "calls env_and_file = []" "className file_source = ''FileSource''"
    by (simp_all add: env_and_file_def file_source_def)
  show ?thesis
    using s1 s2 m o' p c by simp
qed

lemma trySources_calls:
  "\<exists>more. calls (fst (trySources st ck k ps le)) = calls st @ more"
proof (induction ps arbitrary: st le)
  case Nil
  then show ?case by simp
next
  case (Cons q qs)
  show ?case
  proof (cases "resolve q k")
    case (Throws msg)
    with Cons [of "st\<lparr>calls := calls st @ [(className q, k)],
          console := console st @ [''Source '' @ className q @ '' failed for key '' @ k @ '': '' @ msg]\<rparr>" "Some msg"]
    show ?thesis by auto
  next
    case (Returns r)
    show ?thesis
    proof (cases r)
      case None
      with Returns Cons [of "st\<lparr>calls := calls st @ [(className q, k)]\<rparr>" le]
      show ?thesis by auto
    next
      case (Some v)
      with Returns show ?thesis by (simp add: setCachedValue_def)
    qed
  qed
qed

lemma resolvePlaceholder_miss_state:
  assumes "getCachedValue st (n @ '':'' @ s @ '':'' @ k) = (st1, None)"
  shows "fst (resolvePlaceholder st n s k d)
         = fst (trySources st1 (n @ '':'' @ s @ '':'' @ k) k (getOrderedSources st1 s) None)"
proof -
  obtain st2 r le where t: "trySources st1 (n @ '':'' @ s @ '':'' @ k) k (getOrderedSources st1 s) None
      = (st2, r, le)"
    by (cases "trySources st1 (n @ '':'' @ s @ '':'' @ k) k (getOrderedSources st1 s) None") auto
  show ?thesis
    using assms t by (simp add: resolvePlaceholder_def split: option.splits)
qed

text \<open>
  Claim C3, as stated, at an entry whose age is exactly the TTL: 60000 ms after \<open>stale\<close>
  was cached with a TTL of 60000 ms, the entry is still served, the state is unchanged
  and no source is called, although the environment now holds \<open>from_env\<close>.
\<close>

theorem cache_served_at_ttl_counterexample:
  "now aged_at_ttl - 1000 = cacheTimeout aged_at_ttl
   \<and> cache aged_at_ttl ''user:env:KEY'' = Some \<lparr>cached_value = ''stale'', timestamp = 1000\<rparr>
   \<and> resolvePlaceholder aged_at_ttl ''user'' ''env'' ''KEY'' None = (aged_at_ttl, Inr ''stale'')"
  by (simp add: aged_at_ttl_def env_and_file_def resolvePlaceholder_def getCachedValue_def)

text \<open>
  Claim C3, amended: a top-level cache entry under the cache key of (name, source, key),
  read at time \<open>now\<close>, is served if and only if \<open>now - timestamp \<le> cacheTimeout\<close>. When it
  is served the resolver is left unchanged, so no source is called. When its age is
  greater than the TTL it is not served: \<open>resolvePlaceholder\<close> behaves exactly as on the
  resolver without the entry (the entry is deleted on that read), and when the chain is
  not empty the first source of the chain is called.
\<close>

theorem cache_entry_served_iff_within_ttl:
  assumes "cache st (n @ '':'' @ s @ '':'' @ k) = Some entry"
  shows "(now st - timestamp entry \<le> cacheTimeout st \<longrightarrow>
            getCachedValue st (n @ '':'' @ s @ '':'' @ k) = (st, Some (cached_value entry))
            \<and> resolvePlaceholder st n s k d = (st, Inr (cached_value entry)))
       \<and> (now st - timestamp entry > cacheTimeout st \<longrightarrow>
            getCachedValue st (n @ '':'' @ s @ '':'' @ k)
              = (st\<lparr>cache := (cache st)(n @ '':'' @ s @ '':'' @ k := None)\<rparr>, None)
            \<and> resolvePlaceholder st n s k d
              = resolvePlaceholder (st\<lparr>cache := (cache st)(n @ '':'' @ s @ '':'' @ k := None)\<rparr>) n s k d
            \<and> (\<forall>p ps. getOrderedSources st s = p # ps \<longrightarrow>
                  take 1 (drop (length (calls st)) (calls (fst (resolvePlaceholder st n s k d))))
                  = [(className p, k)]))"
proof (intro conjI allI impI)
  assume fresh: "now st - timestamp entry \<le> cacheTimeout st"
  show g: "getCachedValue st (n @ '':'' @ s @ '':'' @ k) = (st, Some (cached_value entry))"
    using assms fresh by (simp add: getCachedValue_def)
  show "resolvePlaceholder st n s k d = (st, Inr (cached_value entry))"
    using g by (simp add: resolvePlaceholder_def)
next
  assume stale: "now st - timestamp entry > cacheTimeout st"
  let ?ck = "n @ '':'' @ s @ '':'' @ k"
  let ?st = "st\<lparr>cache := (cache st)(?ck := None)\<rparr>"
  show g: "getCachedValue st ?ck = (?st, None)"
    using assms stale by (simp add: getCachedValue_def)
  have g': "getCachedValue ?st ?ck = (?st, None)"
    by (simp add: getCachedValue_def)
  show e: "resolvePlaceholder st n s k d = resolvePlaceholder ?st n s k d"
    using g g' by (simp add: resolvePlaceholder_def)
  fix p ps
  assume chain: "getOrderedSources st s = p # ps"
  have "\<exists>more. calls (fst (trySources ?st ?ck k (p # ps) None)) = calls st @ (className p, k) # more"
  proof (cases "resolve p k")
    case (Throws msg)
    then show ?thesis
      using trySources_calls [of "?st\<lparr>calls := calls st @ [(className p, k)],
              console := console st @ [''Source '' @ className p @ '' failed for key '' @ k @ '': '' @ msg]\<rparr>"
            ?ck k ps "Some msg"]
      by auto
  next
    case (Returns r)
    show ?thesis
    proof (cases r)
      case None
      with Returns show ?thesis
        using trySources_calls [of "?st\<lparr>calls := calls st @ [(className p, k)]\<rparr>" ?ck k ps None]
        by auto
    next
      case (Some v)
      with Returns show ?thesis by (simp add: setCachedValue_def)
    qed
  qed
  then obtain more where m: "calls (fst (trySources ?st ?ck k (p # ps) None)) = calls st @ (className p, k) # more"
    by blast
  have "calls (fst (resolvePlaceholder st n s k d)) = calls (fst (trySources ?st ?ck k (p # ps) None))"
    using resolvePlaceholder_miss_state [OF g, of d] chain by simp
  with m show "take 1 (drop (length (calls st)) (calls (fst (resolvePlaceholder st n s k d))))
        = [(className p, k)]"
    by simp
qed

theorem cache_entry_served_iff_within_ttl_witness:
  "cache aged_at_ttl ''user:env:KEY'' = Some \<lparr>cached_value = ''stale'', timestamp = 1000\<rparr>
   \<and> resolvePlaceholder aged_at_ttl ''user'' ''env'' ''KEY'' None = (aged_at_ttl, Inr ''stale'')
   \<and> cache aged_past_ttl ''user:env:KEY'' = Some \<lparr>cached_value = ''stale'', timestamp = 1000\<rparr>
   \<and> snd (getCachedValue aged_past_ttl ''user:env:KEY'') = None
   \<and> take 1 (drop 0 (calls (fst (resolvePlaceholder aged_past_ttl ''user'' ''env'' ''KEY'' None))))
       = [(''EnvSource'', ''KEY'')]"
proof -
  let ?e = "\<lparr>cached_value = ''stale'', timestamp = 1000\<rparr>"
  let ?env = "EnvSource [''KEY'' \<mapsto> ''from_env'', ''ONLY_ENV'' \<mapsto> ''env_value'']"
  have c1: "cache aged_at_ttl (''user'' @ '':'' @ ''env'' @ '':'' @ ''KEY'') = Some ?e"
    by (simp add: aged_at_ttl_def)
  have c2: "cache aged_past_ttl (''user'' @ '':'' @ ''env'' @ '':'' @ ''KEY'') = Some ?e"
    by (simp add: aged_past_ttl_def aged_at_ttl_def)
  have t1: "now aged_at_ttl - timestamp ?e \<le> cacheTimeout aged_at_ttl"
    by (simp add: aged_at_ttl_def env_and_file_def)
  have t2: "now aged_past_ttl - timestamp ?e > cacheTimeout aged_past_ttl"
    by (simp add: aged_past_ttl_def aged_at_ttl_def env_and_file_def)
  have o: "getOrderedSources aged_past_ttl ''env'' = ?env # [file_source]"
    by (simp add: getOrderedSources_def aged_past_ttl_def aged_at_ttl_def env_and_file_def
        sourcePrecedence_def)
  have l: "length (calls aged_past_ttl) = 0" "className ?env = ''EnvSource''"
    by (simp_all add: aged_past_ttl_def aged_at_ttl_def env_and_file_def EnvSource_def)
  from cache_entry_served_iff_within_ttl [OF c1, where d = None] t1
  have a: "resolvePlaceholder aged_at_ttl ''user'' ''env'' ''KEY'' None = (aged_at_ttl, Inr ''stale'')"
    by simp
  from cache_entry_served_iff_within_ttl [OF c2, where d = None] t2
  have b0: "getCachedValue aged_past_ttl (''user'' @ '':'' @ ''env'' @ '':'' @ ''KEY'')
        = (aged_past_ttl\<lparr>cache := (cache aged_past_ttl)(''user'' @ '':'' @ ''env'' @ '':'' @ ''KEY'' := None)\<rparr>, None)"
    and b1: "\<forall>p ps. getOrderedSources aged_past_ttl ''env'' = p # ps \<longrightarrow>
       take 1 (drop (length (calls aged_past_ttl))
          (calls (fst (resolvePlaceholder aged_past_ttl ''user'' ''env'' ''KEY'' None))))
       = [(className p, ''KEY'')]"
    by blast+
  from b0 b1 o
  have b: "snd (getCachedValue aged_past_ttl ''user:env:KEY'') = None
     \<and> take 1 (drop (length (calls aged_past_ttl))
          (calls (fst (resolvePlaceholder aged_past_ttl ''user'' ''env'' ''KEY'' None))))
       = [(className ?env, ''KEY'')]"
    by simp
  show ?thesis
    using c1 c2 a b l by simp
qed

section \<open>Defaults and failures\<close>

text \<open>
  Claim C6: on a cache miss, when every source of the chain fails for the key (throws, or
  returns \<open>null\<close>/\<open>undefined\<close>) or the chain is empty, \<open>resolvePlaceholder\<close> returns a
  supplied default as it is, and without a default fails with a message that names the
  key, the declared source and the message of the last error thrown (\<open>No sources
  available\<close> when no source threw a message). In both cases nothing is added to the
  top-level cache: the cache afterwards is the cache before, less the expired entry of
  this placeholder if there was one.
\<close>

theorem resolvePlaceholder_exhausted:
  assumes "snd (getCachedValue st (n @ '':'' @ s @ '':'' @ k)) = None"
    and "\<forall>p\<in>set (getOrderedSources st s). yields (resolve p k) = None"
  shows "resolvePlaceholder st n s k d
   = (st\<lparr>cache := (cache st)(n @ '':'' @ s @ '':'' @ k := None),
         calls := calls st @ map (\<lambda>p. (className p, k)) (getOrderedSources st s),
         console := console st @ warnings k (getOrderedSources st s)\<rparr>,
      case d of
        Some dv \<Rightarrow> Inr dv
      | None \<Rightarrow>
          Inl (''Could not resolve placeholder for key '' @ sq @ k @ sq @ '' from source '' @ sq
                 @ s @ sq @ ''. Last error: ''
                 @ (if failures k (getOrderedSources st s) = [] then ''No sources available''
                    else if snd (last (failures k (getOrderedSources st s))) \<noteq> []
                    then snd (last (failures k (getOrderedSources st s)))
                    else ''No sources available'')))"
  using assms(2) getCachedValue_miss [OF assms(1)]
  by (cases d) (simp_all add: resolvePlaceholder_def trySources_all_fail last_error_def
      unresolvedMessage_def)

theorem resolvePlaceholder_exhausted_witness:
  "snd (getCachedValue env_only ''x:env:MISSING'') = None
   \<and> snd (resolvePlaceholder env_only ''x'' ''env'' ''MISSING'' (Some ''fallback_value''))
       = Inr ''fallback_value''
   \<and> cache (fst (resolvePlaceholder env_only ''x'' ''env'' ''MISSING'' (Some ''fallback_value'')))
       = Map.empty
   \<and> snd (resolvePlaceholder env_only ''x'' ''env'' ''MISSING'' None)
       = Inl (''Could not resolve placeholder for key '' @ sq @ ''MISSING'' @ sq
              @ '' from source '' @ sq @ ''env'' @ sq @ ''. Last error: ''
              @ ''EnvSource failed to resolve key '' @ sq @ ''MISSING'' @ sq @ '': ''
              @ ''Environment variable '' @ sq @ ''MISSING'' @ sq @ '' not found'')"
proof -
  let ?env = "EnvSource [''TEST_VAR'' \<mapsto> ''test_value'']"
  have m: "snd (getCachedValue env_only (''x'' @ '':'' @ ''env'' @ '':'' @ ''MISSING'')) = None"
    by (simp add: getCachedValue_def env_only_def)
  have o: "getOrderedSources env_only ''env'' = [?env]"
    by (simp add: getOrderedSources_def env_only_def sourcePrecedence_def)
  have f: "\<forall>p\<in>set (getOrderedSources env_only ''env''). yields (resolve p ''MISSING'') = None"
    unfolding o by (simp add: EnvSource_def EnvSource_resolve_def)
  have fl: "failures ''MISSING'' [?env]
            = [(''EnvSource'', ''EnvSource failed to resolve key '' @ sq @ ''MISSING'' @ sq @ '': ''
                        @ ''Environment variable '' @ sq @ ''MISSING'' @ sq @ '' not found'')]"
    by (simp add: failures_def map_filter_def EnvSource_def EnvSource_resolve_def)
  have c: "cache env_only = Map.empty"
    by (simp add: env_only_def)
  show ?thesis
    using m c resolvePlaceholder_exhausted [OF m f, where d = "Some ''fallback_value''"]
      resolvePlaceholder_exhausted [OF m f, where d = None]
    by (simp add: o fl sq_def)
qed

section \<open>Resolving a document\<close>

lemma resolveMatches_append:
  "resolveMatches st t (xs @ ys)
   = (case resolveMatches st t xs of
        (st1, Inl msg) \<Rightarrow> (st1, Inl msg)
      | (st1, Inr t1) \<Rightarrow> resolveMatches st1 t1 ys)"
proof (induction xs arbitrary: st t)
  case Nil
  then show ?case by simp
next
  case (Cons x xs)
  obtain fullMatch p where x: "x = (fullMatch, p)"
    by (cases x) auto
  obtain st1 r where r: "resolvePlaceholder st (name p) (source p) (key p) (defaultValue p) = (st1, r)"
    by (cases "resolvePlaceholder st (name p) (source p) (key p) (defaultValue p)") auto
  show ?case
  proof (cases r)
    case (Inr v)
    with r x show ?thesis by (simp add: Cons.IH)
  next
    case (Inl msg)
    with r x show ?thesis by (cases "defaultValue p") (simp_all add: Cons.IH Let_def)
  qed
qed

text \<open>
  Claim C5: let a document contain a placeholder without default, matched after the
  matches \<open>pre\<close>. If the run over \<open>pre\<close> is already rejected, or it reaches the placeholder
  and the placeholder's resolution fails there, then \<open>resolveText\<close> is rejected with an
  error message: its result is never a document, so no text in which only some
  placeholders are substituted is returned.
\<close>

theorem resolveText_all_or_nothing:
  assumes "s \<noteq> []"
    and "matchAll s = pre @ (fullMatch, p) # post"
    and "defaultValue p = None"
    and "resolveMatches st s pre = (st1, r1)"
    and "\<forall>t1. r1 = Inr t1 \<longrightarrow>
           isl (snd (resolvePlaceholder st1 (name p) (source p) (key p) (defaultValue p)))"
  shows "\<exists>msg. snd (resolveText st (JStr s)) = Inl msg"
proof -
  have "\<exists>msg. snd (resolveMatches st s (matchAll s)) = Inl msg"
  proof (cases r1)
    case (Inl msg)
    then show ?thesis
      using assms(2,4) by (simp add: resolveMatches_append)
  next
    case (Inr t1)
    with assms(5) obtain e where
      "snd (resolvePlaceholder st1 (name p) (source p) (key p) (defaultValue p)) = Inl e"
      by (auto simp: isl_def)
    then obtain st2 where
      "resolvePlaceholder st1 (name p) (source p) (key p) (defaultValue p) = (st2, Inl e)"
      by (cases "resolvePlaceholder st1 (name p) (source p) (key p) (defaultValue p)") auto
    then show ?thesis
      using assms(2,3,4) Inr by (simp add: resolveMatches_append)
  qed
  then show ?thesis
    using assms(1) by (auto simp: resolveText_def split: prod.splits sum.splits)
qed

theorem resolveText_all_or_nothing_witness:
  "matchAll ''Hello <user:env#TEST_VAR>, <x:env#MISSING>!''
     = [(''<user:env#TEST_VAR>'',
         \<lparr>name = ''user'', source = ''env'', key = ''TEST_VAR'', defaultValue = None\<rparr>)]
       @ (''<x:env#MISSING>'',
          \<lparr>name = ''x'', source = ''env'', key = ''MISSING'', defaultValue = None\<rparr>) # []
   \<and> snd (resolveMatches env_only ''Hello <user:env#TEST_VAR>, <x:env#MISSING>!''
          [(''<user:env#TEST_VAR>'',
            \<lparr>name = ''user'', source = ''env'', key = ''TEST_VAR'', defaultValue = None\<rparr>)])
       = Inr ''Hello test_value, <x:env#MISSING>!''
   \<and> (\<exists>msg. snd (resolveText env_only (JStr ''Hello <user:env#TEST_VAR>, <x:env#MISSING>!''))
               = Inl msg)"
proof -
  let ?s = "''Hello <user:env#TEST_VAR>, <x:env#MISSING>!''"
  let ?pre = "[(''<user:env#TEST_VAR>'',
         \<lparr>name = ''user'', source = ''env'', key = ''TEST_VAR'', defaultValue = None\<rparr>)]"
  let ?p = "\<lparr>name = ''x'', source = ''env'', key = ''MISSING'', defaultValue = None\<rparr>"
  have m: "matchAll ?s = ?pre @ (''<x:env#MISSING>'', ?p) # []"
    by (simp add: matchAll_def placeholder_here_def lit_def class_plus_def)
  have r: "resolveMatches env_only ?s ?pre
      = (env_only\<lparr>cache := [''user:env:TEST_VAR'' \<mapsto> \<lparr>cached_value = ''test_value'', timestamp = 1000\<rparr>],
                  calls := [(''EnvSource'', ''TEST_VAR'')]\<rparr>,
         Inr ''Hello test_value, <x:env#MISSING>!'')"
    by (simp add: resolvePlaceholder_def getCachedValue_def env_only_def getOrderedSources_def
        sourcePrecedence_def EnvSource_def EnvSource_resolve_def js_replace_def setCachedValue_def)
  have f: "\<forall>t1. Inr ''Hello test_value, <x:env#MISSING>!'' = (Inr t1 :: string + string) \<longrightarrow>
      isl (snd (resolvePlaceholder
        (env_only\<lparr>cache := [''user:env:TEST_VAR'' \<mapsto> \<lparr>cached_value = ''test_value'', timestamp = 1000\<rparr>],
                  calls := [(''EnvSource'', ''TEST_VAR'')]\<rparr>)
        (name ?p) (source ?p) (key ?p) (defaultValue ?p)))"
    by (simp add: resolvePlaceholder_def getCachedValue_def env_only_def getOrderedSources_def
        sourcePrecedence_def EnvSource_def EnvSource_resolve_def)
  have d: "defaultValue ?p = None" and ne: "?s \<noteq> []"
    by simp_all
  from resolveText_all_or_nothing [OF ne m d r f]
  show ?thesis
    using m r by simp
qed

text \<open>
  Claim C8, evaluated: \<open>resolvedText.replace(fullMatch, value)\<close> expands dollar patterns
  in the value. The default \<open>a$$b\<close> is substituted as \<open>a$b\<close>; the resolved value
  \<open>a$&b\<close> is substituted as \<open>a\<close>, the placeholder itself, \<open>b\<close>; and with that value the second
  occurrence of the same placeholder is left in the document, because the second
  \<open>replace\<close> finds the copy that the first one wrote.
\<close>

theorem resolveText_expands_dollar_patterns:
  "snd (resolveText env_only (JStr ''<x:env#MISSING|a$$b>'')) = Inr (JStr ''a$b'')
   \<and> snd (resolveText dollar_env (JStr ''[<x:env#D>]'')) = Inr (JStr ''[a<x:env#D>b]'')
   \<and> snd (resolveText dollar_env (JStr ''<x:env#D> <x:env#D>''))
       = Inr (JStr ''aa<x:env#D>bb <x:env#D>'')"
proof (intro conjI)
  show "snd (resolveText env_only (JStr ''<x:env#MISSING|a$$b>'')) = Inr (JStr ''a$b'')"
    by (simp add: resolveText_def matchAll_def placeholder_here_def lit_def class_plus_def
        resolvePlaceholder_def getCachedValue_def env_only_def getOrderedSources_def
        sourcePrecedence_def EnvSource_def EnvSource_resolve_def js_replace_def)
  show "snd (resolveText dollar_env (JStr ''[<x:env#D>]'')) = Inr (JStr ''[a<x:env#D>b]'')"
    by (simp add: resolveText_def matchAll_def placeholder_here_def lit_def class_plus_def
        resolvePlaceholder_def getCachedValue_def dollar_env_def getOrderedSources_def
        sourcePrecedence_def EnvSource_def EnvSource_resolve_def js_replace_def setCachedValue_def)
  show "snd (resolveText dollar_env (JStr ''<x:env#D> <x:env#D>''))
        = Inr (JStr ''aa<x:env#D>bb <x:env#D>'')"
    by (simp add: resolveText_def matchAll_def placeholder_here_def lit_def class_plus_def
        resolvePlaceholder_def getCachedValue_def dollar_env_def getOrderedSources_def
        sourcePrecedence_def EnvSource_def EnvSource_resolve_def js_replace_def setCachedValue_def)
qed

text \<open>A value without a dollar sign is substituted character for character, for the
  first occurrence of the placeholder.\<close>

lemma get_substitution_plain:
  "CHR ''$'' \<notin> set v \<Longrightarrow> get_substitution m b a v = v"
  by (induction m b a v rule: get_substitution.induct) auto

lemma js_replace_plain:
  "CHR ''$'' \<notin> set v \<Longrightarrow> find_first pat str = Some (b, a) \<Longrightarrow> js_replace str pat v = b @ v @ a"
  by (simp add: js_replace_def get_substitution_plain)

section \<open>Masking\<close>

lemma find_first_Some:
  "find_first pat s = Some (b, a) \<Longrightarrow> s = b @ pat @ a"
proof (induction s arbitrary: b)
  case Nil
  then show ?case by (simp split: if_splits)
next
  case (Cons c cs)
  show ?case
  proof (cases "take (length pat) (c # cs) = pat")
    case True
    with Cons.prems have "b = []" "a = drop (length pat) (c # cs)"
      by simp_all
    with True show ?thesis
      using append_take_drop_id [of "length pat" "c # cs"] by simp
  next
    case False
    with Cons.prems obtain b' where "find_first pat cs = Some (b', a)" "b = c # b'"
      by (auto split: option.splits)
    with Cons.IH show ?thesis by simp
  qed
qed

lemma find_first_here:
  "take (length pat) s = pat \<Longrightarrow> find_first pat s \<noteq> None"
  by (cases s) auto

lemma contains_mid:
  "contains (b @ t @ a) t"
proof (induction b)
  case Nil
  then show ?case by (simp add: contains_def find_first_here)
next
  case (Cons c b)
  then show ?case by (auto simp: contains_def)
qed

lemma takeWhile_mask_short:
  "length (takeWhile is_secret_char s) < 20
   \<Longrightarrow> takeWhile is_secret_char (maskSensitiveInfo s) = takeWhile is_secret_char s"
  by (induction s) auto

lemma no_long_run_stars:
  "no_long_run (''****'' @ s) = no_long_run s"
  by (simp add: is_secret_char_def)

text \<open>What \<open>maskSensitiveInfo\<close> returns has no run of 20 or more class characters, so
  no token of 20 or more such characters occurs in it.\<close>

lemma no_long_run_mask:
  "no_long_run (maskSensitiveInfo s)"
proof (induction s rule: maskSensitiveInfo.induct)
  case 1
  then show ?case by simp
next
  case (2 c cs)
  show ?case
  proof (cases "20 \<le> length (takeWhile is_secret_char (c # cs))")
    case True
    then have "maskSensitiveInfo (c # cs)
        = ''****'' @ maskSensitiveInfo (dropWhile is_secret_char (c # cs))"
      by (simp only: maskSensitiveInfo.simps if_True)
    then show ?thesis
      using 2(1) [OF True] by (simp only: no_long_run_stars)
  next
    case False
    then have short: "length (takeWhile is_secret_char (c # cs)) < 20"
      by simp
    have "length (takeWhile is_secret_char (c # maskSensitiveInfo cs)) < 20"
    proof (cases "is_secret_char c")
      case True
      with short have "length (takeWhile is_secret_char cs) < 20"
        by simp
      then show ?thesis
        using short True by (simp add: takeWhile_mask_short)
    next
      case False
      then show ?thesis by simp
    qed
    with False 2 show ?thesis by simp
  qed
qed

lemma no_long_run_suffix:
  "no_long_run (b @ s) \<Longrightarrow> no_long_run s"
  by (induction b) auto

lemma no_long_run_hides:
  assumes "no_long_run s" and "20 \<le> length tok" and "\<forall>c\<in>set tok. is_secret_char c"
  shows "\<not> contains s tok"
proof
  assume "contains s tok"
  then obtain b a where "s = b @ tok @ a"
    using find_first_Some by (fastforce simp: contains_def)
  with assms(1) have n: "no_long_run (tok @ a)"
    using no_long_run_suffix by blast
  from assms(2) obtain t ts where t: "tok = t # ts"
    by (cases tok) auto
  have "takeWhile is_secret_char (tok @ a) = tok @ takeWhile is_secret_char a"
    using assms(3) by (simp add: takeWhile_append2)
  then have "20 \<le> length (takeWhile is_secret_char (tok @ a))"
    using assms(2) by simp
  with n t show False by simp
qed

lemma token25_secret:
  "20 \<le> length token25 \<and> (\<forall>c\<in>set token25. is_secret_char c)"
  by (simp add: token25_def is_secret_char_def)

lemma mask_failure_prefix:
  "maskSensitiveInfo (''Parameter resolution failed: '' @ m)
   = ''Parameter resolution failed: '' @ maskSensitiveInfo m"
  by (simp add: is_secret_char_def)

text \<open>
  Claim C7, evaluated: a step whose placeholder has the 25-letter key \<open>token25\<close>, not set
  in the environment. \<open>resolveText\<close> rejects with a message that contains the token, every
  console line written on the way contains it, and only the \<open>errorMessage\<close> handed to the
  callback has gone through \<open>maskSensitiveInfo\<close> and is free of it.
\<close>

theorem step_failure_logged_unmasked:
  "list_all (\<lambda>line. contains line token25)
     (console (fst (handleStepExecutionStarting env_only (Some secret_step))))
   \<and> length (console (fst (handleStepExecutionStarting env_only (Some secret_step)))) = 3
   \<and> (case snd (resolveText env_only (actualText secret_step)) of
         Inl msg \<Rightarrow> contains msg token25
       | Inr v \<Rightarrow> False)
   \<and> failed (snd (snd (handleStepExecutionStarting env_only (Some secret_step))))
   \<and> \<not> contains (the (errorMessage (snd (snd (handleStepExecutionStarting env_only (Some secret_step))))))
         token25"
proof -
  let ?env_msg = "''EnvSource failed to resolve key '' @ sq @ token25 @ sq @ '': ''
                    @ ''Environment variable '' @ sq @ token25 @ sq @ '' not found''"
  let ?raw = "''Failed to resolve required placeholder <t:env#'' @ token25 @ ''>: ''
               @ ''Could not resolve placeholder for key '' @ sq @ token25 @ sq
               @ '' from source '' @ sq @ ''env'' @ sq @ ''. Last error: '' @ ?env_msg"
  let ?l1 = "''Source EnvSource failed for key '' @ token25 @ '': '' @ ?env_msg"
  let ?l2 = "''Failed to resolve placeholder <t:env#'' @ token25 @ ''>: ''
               @ ''Could not resolve placeholder for key '' @ sq @ token25 @ sq
               @ '' from source '' @ sq @ ''env'' @ sq @ ''. Last error: '' @ ?env_msg"
  have r: "resolveText env_only (actualText secret_step)
     = (env_only\<lparr>calls := [(''EnvSource'', token25)], console := [?l1, ?l2]\<rparr>, Inl ?raw)"
    by (simp add: secret_step_def token25_def resolveText_def matchAll_def placeholder_here_def
        lit_def class_plus_def resolvePlaceholder_def getCachedValue_def env_only_def
        getOrderedSources_def sourcePrecedence_def EnvSource_def EnvSource_resolve_def
        unresolvedMessage_def sq_def)
  have t: "truthy (actualText secret_step)"
    by (simp add: secret_step_def)
  have h: "handleStepExecutionStarting env_only (Some secret_step)
     = (env_only\<lparr>calls := [(''EnvSource'', token25)],
          console := [?l1, ?l2, ''Error resolving step parameters: '' @ ?raw]\<rparr>,
        Some secret_step,
        \<lparr>failed = True,
         errorMessage = Some (''Parameter resolution failed: '' @ maskSensitiveInfo ?raw)\<rparr>)"
    by (simp add: handleStepExecutionStarting_def t r stepFailure_def
        del: maskSensitiveInfo.simps)
  have c1: "contains ?l1 token25"
    using contains_mid [of "''Source EnvSource failed for key ''" token25 "'': '' @ ?env_msg"]
    by simp
  have c2: "contains ?l2 token25"
    using contains_mid [of "''Failed to resolve placeholder <t:env#''" token25
        "''>: '' @ ''Could not resolve placeholder for key '' @ sq @ token25 @ sq
               @ '' from source '' @ sq @ ''env'' @ sq @ ''. Last error: '' @ ?env_msg"]
    by simp
  have c0: "contains ?raw token25"
    using contains_mid [of "''Failed to resolve required placeholder <t:env#''" token25
        "''>: '' @ ''Could not resolve placeholder for key '' @ sq @ token25 @ sq
               @ '' from source '' @ sq @ ''env'' @ sq @ ''. Last error: '' @ ?env_msg"]
    by simp
  have c3: "contains (''Error resolving step parameters: '' @ ?raw) token25"
    using contains_mid [of "''Error resolving step parameters: Failed to resolve required placeholder <t:env#''"
        token25
        "''>: '' @ ''Could not resolve placeholder for key '' @ sq @ token25 @ sq
               @ '' from source '' @ sq @ ''env'' @ sq @ ''. Last error: '' @ ?env_msg"]
    by simp
  have "\<not> contains (maskSensitiveInfo (''Parameter resolution failed: '' @ ?raw)) token25"
    using no_long_run_hides [OF no_long_run_mask] token25_secret by blast
  then have m: "\<not> contains (''Parameter resolution failed: '' @ maskSensitiveInfo ?raw) token25"
    unfolding mask_failure_prefix .
  show ?thesis
    unfolding h r using c0 c1 c2 c3 m by (simp del: maskSensitiveInfo.simps)
qed

section \<open>The batch run\<close>





text \<open>When the copy is refused as well, \<open>processSpecFile\<close> throws with the message of the
  failed resolution, and the loop over the directory ends there.\<close>

lemma failed_copy_rethrows:
  assumes "isSpecFile nm"
    and "fs_readFile fs (path_join currentDir [nm]) = Inr content"
    and "resolveText (st\<lparr>console := console st
             @ [''Processing spec file: '' @ path_str (path_join currentDir [nm])]\<rparr>)
           (JStr content) = (st1, Inl msg)"
    and "copyFile fs (path_join currentDir [nm])
           (path_join outDir (path_relative baseDir (path_join currentDir [nm])))
         = (fs2, Inl copyError)"
  shows "processItems st fs currentDir outDir baseDir (RegularFile nm # rest)
       = ((st1\<lparr>console := console st1
               @ [''Failed to process spec file '' @ path_str (path_join currentDir [nm])
                    @ '': '' @ msg]\<rparr>, fs2),
          Inl (''Failed to process or copy spec file '' @ path_str (path_join currentDir [nm])
                 @ '': '' @ msg))"
proof -
  have t: "processSpecFile_try st fs (path_join currentDir [nm])
             (path_join outDir (path_relative baseDir (path_join currentDir [nm])))
           = ((st1, fs), Inl msg)"
    using assms(2,3) by (simp add: processSpecFile_try_def)
  show ?thesis
    using assms(1,4) by (simp add: Let_def processSpecFile_def t)
qed

end
